theory Spec2Isabelle
  imports Complex_Main "HOL-Library.Log_Nat" "HOL-Library.Sublist"
begin

section \<open>Python values, errors and double-precision floats\<close>

text \<open>
  The program is Python: its integers are unbounded (\<open>int\<close>), its floats are IEEE 754
  binary64. A float is modelled by the rational number it denotes; every float operation
  is the exact rational operation followed by \<open>round_double\<close>, rounding to the nearest
  double with ties to the even significand. Infinities, NaN and the sign of zero are not
  represented: no operation of the program on the inputs considered produces them.
  Exceptions are values of \<open>py_error\<close>, and a computation that may raise returns
  \<open>py_error + 'a\<close>.
\<close>

datatype py_error = OverflowError | ZeroDivisionError | IndexError

datatype pyval = PyInt int | PyFloat rat

definition bind_err :: "'e + 'a \<Rightarrow> ('a \<Rightarrow> 'e + 'b) \<Rightarrow> 'e + 'b" where
  "bind_err m f = (case m of Inl e \<Rightarrow> Inl e | Inr x \<Rightarrow> f x)"

fun map_err :: "('a \<Rightarrow> 'e + 'b) \<Rightarrow> 'a list \<Rightarrow> 'e + 'b list" where
  "map_err f [] = Inr []"
| "map_err f (x # xs) =
     bind_err (f x) (\<lambda>y. bind_err (map_err f xs) (\<lambda>ys. Inr (y # ys)))"

definition round_half_even :: "rat \<Rightarrow> int" where
  "round_half_even q =
     (let f = \<lfloor>q\<rfloor>; r = q - of_int f
      in if r < 1 / 2 then f
         else if 1 / 2 < r then f + 1
         else if even f then f else f + 1)"

text \<open>\<open>ilog2 q\<close> is the binary exponent of a positive rational: \<open>2 ^ ilog2 q \<le> q < 2 ^ (ilog2 q + 1)\<close>.\<close>

definition ilog2 :: "rat \<Rightarrow> int" where
  "ilog2 q = (case quotient_of q of (a, b) \<Rightarrow>
      (let d = bitlen a - bitlen b in if 2 powi d \<le> q then d else d - 1))"

text \<open>
  Rounding to binary64: 53 significant bits, smallest exponent \<open>-1022\<close> (below it the
  spacing stays \<open>2 ^ -1074\<close>: subnormal numbers, and underflow to zero).
  Results of magnitude \<open>2 ^ 1024\<close> or more do not fit; the callers test for that.
\<close>

definition round_double :: "rat \<Rightarrow> rat" where
  "round_double q =
     (if q = 0 then 0
      else let e = max (ilog2 \<bar>q\<bar>) (- 1022);
               ulp = 2 powi (e - 52)
           in sgn q * of_int (round_half_even (\<bar>q\<bar> / ulp)) * ulp)"

text \<open>A float literal of the source denotes the double nearest to its decimal value.\<close>

definition float_literal :: "rat \<Rightarrow> rat" where
  "float_literal q = round_double q"

text \<open>Conversion of an \<open>int\<close> to \<open>float\<close> raises \<open>OverflowError\<close> when the rounded value does not fit.\<close>

text \<open>The bound \<open>2 ^ 1024\<close>, written out: every double is smaller in magnitude.\<close>

definition double_limit :: rat where
  "double_limit = 179769313486231590772930519078902473361797697894230657273430081157732675805500963132708477322407536021120113879871393357658789768814416622492847430639474124377767893424865485276302219601246094119453082952085005768838150682342462881473913110540827237163350510684586298239947245938479716304835356329624224137216"

definition float_of_int :: "int \<Rightarrow> py_error + rat" where
  "float_of_int i =
     (let x = round_double (of_int i)
      in if \<bar>x\<bar> < double_limit then Inr x else Inl OverflowError)"

definition to_float :: "pyval \<Rightarrow> py_error + rat" where
  "to_float v = (case v of PyInt i \<Rightarrow> float_of_int i | PyFloat x \<Rightarrow> Inr x)"

text \<open>The exact numeric value; Python compares an \<open>int\<close> with a \<open>float\<close> exactly.\<close>

definition pyval_rat :: "pyval \<Rightarrow> rat" where
  "pyval_rat v = (case v of PyInt i \<Rightarrow> of_int i | PyFloat x \<Rightarrow> x)"

definition py_lt_float :: "pyval \<Rightarrow> rat \<Rightarrow> bool" where
  "py_lt_float v c \<longleftrightarrow> pyval_rat v < c"

text \<open>\<open>2 ** e\<close>: an exact \<open>int\<close> for \<open>e \<ge> 0\<close>; for a negative exponent Python switches to
  float arithmetic, \<open>float(2) ** float(e)\<close>.\<close>

definition py_pow2 :: "int \<Rightarrow> py_error + pyval" where
  "py_pow2 e =
     (if 0 \<le> e then Inr (PyInt (2 ^ nat e))
      else bind_err (float_of_int e) (\<lambda>w. Inr (PyFloat (round_double (2 powi \<lfloor>w\<rfloor>)))))"

text \<open>\<open>v - k\<close> and \<open>v + k\<close> for an \<open>int\<close> constant \<open>k\<close>: exact on \<open>int\<close>, rounded on \<open>float\<close>.\<close>

definition py_sub_int :: "pyval \<Rightarrow> int \<Rightarrow> py_error + pyval" where
  "py_sub_int v k =
     (case v of
        PyInt i \<Rightarrow> Inr (PyInt (i - k))
      | PyFloat x \<Rightarrow> bind_err (float_of_int k) (\<lambda>y. Inr (PyFloat (round_double (x - y)))))"

definition py_add_int :: "pyval \<Rightarrow> int \<Rightarrow> py_error + pyval" where
  "py_add_int v k =
     (case v of
        PyInt i \<Rightarrow> Inr (PyInt (i + k))
      | PyFloat x \<Rightarrow> bind_err (float_of_int k) (\<lambda>y. Inr (PyFloat (round_double (x + y)))))"

text \<open>\<open>v / c\<close> and \<open>v * c\<close> for a float \<open>c\<close>: the left operand is converted to float first.\<close>

definition py_truediv_float :: "pyval \<Rightarrow> rat \<Rightarrow> py_error + rat" where
  "py_truediv_float v c =
     bind_err (to_float v) (\<lambda>x.
       if c = 0 then Inl ZeroDivisionError else Inr (round_double (x / c)))"

definition py_mul_float :: "pyval \<Rightarrow> rat \<Rightarrow> py_error + rat" where
  "py_mul_float v c = bind_err (to_float v) (\<lambda>x. Inr (round_double (x * c)))"

section \<open>Quantity engine\<close>

definition calculate_grains :: "int \<Rightarrow> py_error + pyval" where
  "calculate_grains square = py_pow2 (square - 1)"

definition calculate_total :: "int \<Rightarrow> py_error + pyval" where
  "calculate_total up_to_square = bind_err (py_pow2 up_to_square) (\<lambda>p. py_sub_int p 1)"

section \<open>Magnitude formatter\<close>

definition digit_char :: "int \<Rightarrow> char" where
  "digit_char d = ''0123456789'' ! nat d"

text \<open>The decimal digits of a non-negative integer.\<close>

function str_nat :: "int \<Rightarrow> string" where
  "str_nat n = (if n < 10 then [digit_char n] else str_nat (n div 10) @ [digit_char (n mod 10)])"
  by pat_completeness auto
termination
  by (relation "measure nat") auto

declare str_nat.simps [simp del]

definition py_str_int :: "int \<Rightarrow> string" where
  "py_str_int i = (if i < 0 then ''-'' @ str_nat (- i) else str_nat i)"

text \<open>The \<open>,\<close> option of the format specification: a comma before every group of three digits.\<close>

fun group_thousands :: "string \<Rightarrow> string" where
  "group_thousands ds =
     (if length ds \<le> 3 then ds
      else group_thousands (take (length ds - 3) ds) @ '','' @ drop (length ds - 3) ds)"

declare group_thousands.simps [simp del]

definition zero_pad :: "nat \<Rightarrow> string \<Rightarrow> string" where
  "zero_pad p ds = replicate (p - length ds) CHR ''0'' @ ds"

text \<open>
  The presentation type \<open>f\<close> with precision \<open>p\<close>: the exact value of the float, rounded to
  \<open>p\<close> decimals with ties to even, as CPython's correctly rounded conversion does.
\<close>

definition format_fixed :: "bool \<Rightarrow> nat \<Rightarrow> rat \<Rightarrow> string" where
  "format_fixed grouping p x =
     (let n = round_half_even (\<bar>x\<bar> * 10 ^ p);
          whole = str_nat (n div 10 ^ p)
      in (if x < 0 then ''-'' else '''')
         @ (if grouping then group_thousands whole else whole)
         @ (if p = 0 then '''' else ''.'' @ zero_pad p (str_nat (n mod 10 ^ p))))"

text \<open>Formatting an \<open>int\<close> with presentation type \<open>f\<close> converts it to \<open>float\<close> first.\<close>

definition py_format_f :: "bool \<Rightarrow> nat \<Rightarrow> pyval \<Rightarrow> py_error + string" where
  "py_format_f grouping p v = bind_err (to_float v) (\<lambda>x. Inr (format_fixed grouping p x))"

definition format_number :: "pyval \<Rightarrow> py_error + string" where
  "format_number num =
     (if py_lt_float num (float_literal (10 ^ 6)) then py_format_f True 0 num
      else if py_lt_float num (float_literal (10 ^ 9)) then
        bind_err (py_truediv_float num (float_literal (10 ^ 6)))
          (\<lambda>q. Inr (format_fixed False 2 q @ ''M''))
      else if py_lt_float num (float_literal (10 ^ 12)) then
        bind_err (py_truediv_float num (float_literal (10 ^ 9)))
          (\<lambda>q. Inr (format_fixed False 2 q @ ''B''))
      else if py_lt_float num (float_literal (10 ^ 15)) then
        bind_err (py_truediv_float num (float_literal (10 ^ 12)))
          (\<lambda>q. Inr (format_fixed False 2 q @ ''T''))
      else
        bind_err (py_truediv_float num (float_literal (10 ^ 15)))
          (\<lambda>q. Inr (format_fixed False 2 q @ ''Q'')))"

section \<open>Chessboard heat map\<close>

text \<open>
  \<open>np.log10\<close> is a library function; it is taken as the real logarithm to base 10 of
  the argument's value (the library returns the double next to it).
\<close>

definition np_log10 :: "pyval \<Rightarrow> real" where
  "np_log10 v = log 10 (of_rat (pyval_rat v))"

record annotation =
  ann_x :: nat
  ann_y :: nat
  ann_text :: string
  ann_white :: bool

record heatmap =
  hm_z :: "real list list"
  hm_customdata :: "pyval list list"
  hm_annotations :: "annotation list"
  hm_title :: string

definition set_cell :: "real list list \<Rightarrow> nat \<Rightarrow> nat \<Rightarrow> real \<Rightarrow> real list list" where
  "set_cell board i j v = board[i := (board ! i)[j := v]]"

text \<open>The inner loop \<open>for j in range(8)\<close> and the outer loop \<open>for i in range(8)\<close>, threading
  the board and the annotations.\<close>

fun heatmap_row ::
  "int \<Rightarrow> nat \<Rightarrow> nat list \<Rightarrow> real list list \<times> annotation list \<Rightarrow>
   py_error + (real list list \<times> annotation list)" where
  "heatmap_row current_square i [] st = Inr st"
| "heatmap_row current_square i (j # js) (board, annotations) =
     (let square_num = int i * 8 + int j + 1
      in bind_err
           (if square_num \<le> current_square
            then bind_err (calculate_grains square_num) (\<lambda>g.
                   bind_err (py_add_int g 1) (\<lambda>a. Inr (set_cell board i j (np_log10 a))))
            else Inr board)
           (\<lambda>board'. heatmap_row current_square i js
              (board', annotations @
                 [\<lparr>ann_x = j, ann_y = i, ann_text = py_str_int square_num,
                   ann_white = (5 < board' ! i ! j)\<rparr>])))"

fun heatmap_rows ::
  "int \<Rightarrow> nat list \<Rightarrow> real list list \<times> annotation list \<Rightarrow>
   py_error + (real list list \<times> annotation list)" where
  "heatmap_rows current_square [] st = Inr st"
| "heatmap_rows current_square (i # is) st =
     bind_err (heatmap_row current_square i [0..<8] st) (heatmap_rows current_square is)"

definition heatmap_customdata :: "int \<Rightarrow> py_error + pyval list list" where
  "heatmap_customdata current_square =
     map_err (\<lambda>i. map_err (\<lambda>j.
         if int i * 8 + int j + 1 \<le> current_square
         then calculate_grains (int i * 8 + int j + 1) else Inr (PyInt 0)) [0..<8]) [0..<8]"

definition create_chessboard_heatmap :: "int \<Rightarrow> py_error + heatmap" where
  "create_chessboard_heatmap current_square =
     bind_err (heatmap_rows current_square [0..<8] (replicate 8 (replicate 8 0), []))
       (\<lambda>(board, annotations).
          bind_err (heatmap_customdata current_square) (\<lambda>customdata.
            Inr \<lparr>hm_z = board, hm_customdata = customdata, hm_annotations = annotations,
                 hm_title = ''Chessboard - Up to Square '' @ py_str_int current_square\<rparr>))"

section \<open>Series generator\<close>

definition py_range :: "int \<Rightarrow> int \<Rightarrow> int list" where
  "py_range a b = [a..b - 1]"

definition py_last :: "'a list \<Rightarrow> py_error + 'a" where
  "py_last xs = (if xs = [] then Inl IndexError else Inr (last xs))"

text \<open>The data of a chart: the main trace and, when present, the highlighted current point.\<close>

record scatter =
  sc_x :: "int list"
  sc_y :: "pyval list"
  sc_highlight :: "(int \<times> pyval) option"

definition create_exponential_growth_chart :: "int \<Rightarrow> py_error + scatter" where
  "create_exponential_growth_chart current_square =
     (let squares = py_range 1 (min (current_square + 1) 65)
      in bind_err (map_err calculate_grains squares) (\<lambda>grains.
           bind_err (if 1 < current_square
                     then bind_err (py_last grains) (\<lambda>g. Inr (Some (current_square, g)))
                     else Inr None)
             (\<lambda>h. Inr \<lparr>sc_x = squares, sc_y = grains, sc_highlight = h\<rparr>)))"

definition create_cumulative_chart :: "int \<Rightarrow> py_error + scatter" where
  "create_cumulative_chart current_square =
     (let squares = py_range 1 (min (current_square + 1) 65)
      in bind_err (map_err calculate_total squares) (\<lambda>cumulative.
           bind_err (if 1 < current_square
                     then bind_err (py_last cumulative) (\<lambda>g. Inr (Some (current_square, g)))
                     else Inr None)
             (\<lambda>h. Inr \<lparr>sc_x = squares, sc_y = cumulative, sc_highlight = h\<rparr>)))"

section \<open>Comparison data set\<close>

text \<open>A dict keeps its keys in insertion order; assigning to a present key replaces the value in place.\<close>

fun dict_set :: "('k \<times> 'v) list \<Rightarrow> 'k \<Rightarrow> 'v \<Rightarrow> ('k \<times> 'v) list" where
  "dict_set [] k v = [(k, v)]"
| "dict_set ((k', v') # kvs) k v =
     (if k' = k then (k', v) # kvs else (k', v') # dict_set kvs k v)"

definition dict_literal :: "('k \<times> 'v) list \<Rightarrow> ('k \<times> 'v) list" where
  "dict_literal kvs = foldl (\<lambda>d (k, v). dict_set d k v) [] kvs"

definition comparisons :: "(string \<times> rat) list" where
  "comparisons = dict_literal
     [(''World Population\<newline>(8 billion)'', float_literal (8 * 10 ^ 9)),
      (''Seconds in\<newline>1 million years'', float_literal (315 * 10 ^ 11)),
      (''Grains of sand\<newline>on Earth'', float_literal (75 * 10 ^ 17)),
      (''Total Rice Grains\<newline>(64 squares)'', float_literal (1844674407 * 10 ^ 10)),
      (''Stars in\<newline>observable universe'', float_literal (10 ^ 24))]"

record bar_chart =
  bar_x :: "string list"
  bar_y :: "rat list"
  bar_text :: "string list"

definition create_comparison_chart :: "py_error + bar_chart" where
  "create_comparison_chart =
     (let items = map fst comparisons; vals = map snd comparisons
      in bind_err (map_err (\<lambda>v. format_number (PyFloat v)) vals) (\<lambda>texts.
           Inr \<lparr>bar_x = items, bar_y = vals, bar_text = texts\<rparr>))"

section \<open>The summary and the five outputs\<close>

text \<open>The fixed text of the statistics panel, cut at the three interpolated values of the f-string; non-ASCII characters are their UTF-8 bytes.\<close>

definition stats_open :: string where
  \<open>stats_open =
       ''\<newline>''
     @ ''    <div style="background: linear-gradient(135deg, #667eea 0%, #764ba2 100%); padding: 20px; border-radius: 15px; color: white; box-shadow: 0 8px 32px rgba(0,0,0,0.2);">\<newline>''
     @ ''        <h2 style="margin-top: 0; text-align: center; font-weight: 700;">''
     @ [CHR 0xF0, CHR 0x9F, CHR 0x93, CHR 0x8A]
     @ '' Current Statistics</h2>\<newline>''
     @ ''        \<newline>''
     @ ''        <div style="display: flex; justify-content: space-around; margin: 20px 0;">\<newline>''
     @ ''            <div style="text-align: center;">\<newline>''
     @ ''                <div style="font-size: 1.2em; opacity: 0.9;">Square Number</div>\<newline>''
     @ ''                <div style="font-size: 2.5em; font-weight: bold;">''\<close>

definition stats_after_square :: string where
  \<open>stats_after_square =
       ''<span style="font-size: 1.2em;">/64</span></div>\<newline>''
     @ ''            </div>\<newline>''
     @ ''            <div style="text-align: center;">\<newline>''
     @ ''                <div style="font-size: 1.2em; opacity: 0.9;">Grains on This Square</div>\<newline>''
     @ ''                <div style="font-size: 2.5em; font-weight: bold; color: #fbbf24;">''\<close>

definition stats_after_grains :: string where
  \<open>stats_after_grains =
       ''</div>\<newline>''
     @ ''            </div>\<newline>''
     @ ''            <div style="text-align: center;">\<newline>''
     @ ''                <div style="font-size: 1.2em; opacity: 0.9;">Total Grains So Far</div>\<newline>''
     @ ''                <div style="font-size: 2.5em; font-weight: bold; color: #c084fc;">''\<close>

definition stats_after_total :: string where
  \<open>stats_after_total =
       ''</div>\<newline>''
     @ ''            </div>\<newline>''
     @ ''        </div>\<newline>''
     @ ''        \<newline>''
     @ ''        <hr style="border: 0; border-top: 1px solid rgba(255,255,255,0.3); margin: 20px 0;">\<newline>''
     @ ''        \<newline>''
     @ ''        <h3 style="text-align: center; margin-bottom: 15px;">''
     @ [CHR 0xF0, CHR 0x9F, CHR 0x8C, CHR 0xBE]
     @ '' Real-World Context</h3>\<newline>''
     @ ''    ''\<close>

text \<open>The block appended for square 64.\<close>

definition complete_board_block :: string where
  \<open>complete_board_block =
       ''\<newline>''
     @ ''        <div style="background: rgba(0,0,0,0.2); padding: 15px; border-radius: 10px; margin-top: 15px;">\<newline>''
     @ ''            <h3 style="text-align: center; margin-top: 0; color: #fbbf24;">''
     @ [CHR 0xF0, CHR 0x9F, CHR 0x8F, CHR 0x86]
     @ '' Complete Board!</h3>\<newline>''
     @ ''            <p style="text-align: center; font-size: 1.2em;">\<newline>''
     @ ''                <strong>Total: 18,446,744,073,709,551,615 grains</strong><br>\<newline>''
     @ ''                Weight: ~461 billion metric tons<br>\<newline>''
     @ ''                More than 1,000 years of global rice production!\<newline>''
     @ ''            </p>\<newline>''
     @ ''        </div>\<newline>''
     @ ''        ''\<close>

definition py_truediv_int :: "pyval \<Rightarrow> int \<Rightarrow> py_error + rat" where
  "py_truediv_int v k = bind_err (float_of_int k) (\<lambda>c. py_truediv_float v c)"

text \<open>The fixed texts of the context paragraphs, cut at the interpolated values, the weight
  of a grain in kilograms (the literal \<open>0.00002\<close>), and the closing tag.\<close>

definition at_square_text :: string where
  \<open>at_square_text = ''<p style='text-align: center; font-size: 1.1em;'>At square ''\<close>

definition we_have_text :: string where
  \<open>we_have_text = '', we have ''\<close>

definition manageable_text :: string where
  \<open>manageable_text = '' grains - still manageable amounts!</p>''\<close>

definition significant_text :: string where
  \<open>significant_text = '' grains per square - this is getting significant!</p>''\<close>

definition weight_text :: string where
  \<open>weight_text = ''<p style='text-align: center; font-size: 1.1em;'>Total weight so far: ~''\<close>

definition kg_text :: string where
  \<open>kg_text = '' kg (''\<close>

definition tons_text :: string where
  \<open>tons_text = '' metric tons!)</p>''\<close>

definition astronomical_text :: string where
  \<open>astronomical_text = ''<p style='text-align: center; font-size: 1.1em;'>The numbers are now astronomically large! Current square alone: ''\<close>

definition grains_text :: string where
  \<open>grains_text = '' grains</p>''\<close>

definition closing_div :: string where
  \<open>closing_div = ''</div>''\<close>

definition grain_weight_kg :: rat where
  "grain_weight_kg = float_literal (2 / 10 ^ 5)"

text \<open>The \<open>if\<close>/\<open>elif\<close> chain that appends the context paragraph to the summary.\<close>

definition narrative_block :: "int \<Rightarrow> pyval \<Rightarrow> pyval \<Rightarrow> py_error + string" where
  "narrative_block square_num current_grains total_grains =
     (if square_num \<le> 10 then
        bind_err (format_number current_grains) (\<lambda>fg.
          Inr (at_square_text @ py_str_int square_num @ we_have_text @ fg @ manageable_text))
      else if square_num \<le> 20 then
        bind_err (format_number current_grains) (\<lambda>fg.
          Inr (at_square_text @ py_str_int square_num @ we_have_text @ fg @ significant_text))
      else if square_num \<le> 30 then
        bind_err (py_mul_float total_grains grain_weight_kg) (\<lambda>weight_kg.
          bind_err (format_number (PyFloat weight_kg)) (\<lambda>fw.
            bind_err (py_truediv_int (PyFloat weight_kg) 1000) (\<lambda>tons.
              bind_err (format_number (PyFloat tons)) (\<lambda>ft.
                Inr (weight_text @ fw @ kg_text @ ft @ tons_text)))))
      else
        bind_err (format_number current_grains) (\<lambda>fg.
          Inr (astronomical_text @ fg @ grains_text)))"

definition stats_html :: "int \<Rightarrow> py_error + string" where
  "stats_html square_num =
     bind_err (calculate_grains square_num) (\<lambda>current_grains.
       bind_err (calculate_total square_num) (\<lambda>total_grains.
         bind_err (format_number current_grains) (\<lambda>fg.
           bind_err (format_number total_grains) (\<lambda>ft.
             bind_err (narrative_block square_num current_grains total_grains) (\<lambda>para.
               Inr (stats_open @ py_str_int square_num @ stats_after_square @ fg
                    @ stats_after_grains @ ft @ stats_after_total
                    @ para
                    @ (if square_num = 64 then complete_board_block else [])
                    @ closing_div))))))"

definition update_visualization ::
  "int \<Rightarrow> py_error + (string \<times> heatmap \<times> scatter \<times> scatter \<times> bar_chart)" where
  "update_visualization square_num =
     bind_err (stats_html square_num) (\<lambda>stats.
       bind_err (create_chessboard_heatmap square_num) (\<lambda>chessboard.
         bind_err (create_exponential_growth_chart square_num) (\<lambda>growth_chart.
           bind_err (create_cumulative_chart square_num) (\<lambda>cumulative_chart.
             bind_err create_comparison_chart (\<lambda>comparison_chart.
               Inr (stats, chessboard, growth_chart, cumulative_chart, comparison_chart))))))"


section \<open>Notions used in the statements and proofs\<close>

text \<open>The shape of the board, and the value the loop stores for row \<open>i\<close>, column \<open>j\<close>.\<close>

definition board_ok :: "real list list \<Rightarrow> bool" where
  "board_ok b \<longleftrightarrow> length b = 8 \<and> (\<forall>i<8. length (b ! i) = 8)"

definition log_cell :: "nat \<Rightarrow> nat \<Rightarrow> real" where
  "log_cell i j = log 10 (real_of_int (2 ^ (i * 8 + j)) + 1)"




section \<open>Properties of the quantity engine\<close>

lemma bind_err_Inr [simp]: "bind_err (Inr x) f = f x"
  by (simp add: bind_err_def)

lemma bind_err_Inl [simp]: "bind_err (Inl e) f = Inl e"
  by (simp add: bind_err_def)

lemma calculate_grains_nonneg:
  "1 \<le> n \<Longrightarrow> calculate_grains n = Inr (PyInt (2 ^ nat (n - 1)))"
  by (simp add: calculate_grains_def py_pow2_def)

lemma calculate_total_nonneg:
  "0 \<le> n \<Longrightarrow> calculate_total n = Inr (PyInt (2 ^ nat n - 1))"
  by (simp add: calculate_total_def py_pow2_def py_sub_int_def)

text \<open>
  Claim C1. For every square index \<open>n\<close> from 1 to 64, \<open>calculate_total n\<close> returns the exact
  integer \<open>2 ^ n - 1\<close>, without error and without wrap-around; for \<open>n = 64\<close> this is
  18446744073709551615.
\<close>

theorem calculate_total_exact:
  "1 \<le> n \<and> n \<le> 64 \<longrightarrow>
     calculate_total n = Inr (PyInt (2 ^ nat n - 1)) \<and>
     calculate_total 64 = Inr (PyInt 18446744073709551615)"
  by (simp add: calculate_total_nonneg)

theorem calculate_total_exact_witness:
  "calculate_total 10 = Inr (PyInt 1023) \<and>
   calculate_total 64 = Inr (PyInt 18446744073709551615)"
  using calculate_total_exact [of 10] by simp

text \<open>
  Claim C2. For every square index \<open>n\<close> from 1 to 64, \<open>calculate_grains n\<close> returns the exact
  integer \<open>2 ^ (n - 1)\<close> (an \<open>int\<close>, not a float); \<open>calculate_grains 1\<close> is 1 and
  \<open>calculate_grains 64\<close> is \<open>2 ^ 63\<close>.
\<close>

theorem calculate_grains_exact:
  "1 \<le> n \<and> n \<le> 64 \<longrightarrow>
     calculate_grains n = Inr (PyInt (2 ^ nat (n - 1))) \<and>
     calculate_grains 1 = Inr (PyInt 1) \<and>
     calculate_grains 64 = Inr (PyInt (2 ^ 63))"
  by (simp add: calculate_grains_nonneg)

theorem calculate_grains_exact_witness:
  "calculate_grains 10 = Inr (PyInt 512) \<and>
   calculate_grains 1 = Inr (PyInt 1) \<and>
   calculate_grains 64 = Inr (PyInt 9223372036854775808)"
  using calculate_grains_exact [of 10] by simp

text \<open>
  Claim C7. For every \<open>n\<close> from 2 to 64 the total through square \<open>n\<close> is twice the total
  through square \<open>n - 1\<close> plus one, the total through square 1 is 1, and for every \<open>n\<close>
  from 1 to 63 the total through square \<open>n\<close> is one less than the grains on square \<open>n + 1\<close>.
\<close>

theorem calculate_total_recurrence:
  "(2 \<le> n \<and> n \<le> 64 \<longrightarrow>
      (\<exists>t p. calculate_total n = Inr (PyInt t) \<and> calculate_total (n - 1) = Inr (PyInt p) \<and>
             t = 2 * p + 1)) \<and>
   calculate_total 1 = Inr (PyInt 1) \<and>
   (1 \<le> m \<and> m \<le> 63 \<longrightarrow>
      (\<exists>t g. calculate_total m = Inr (PyInt t) \<and> calculate_grains (m + 1) = Inr (PyInt g) \<and>
             t = g - 1))"
proof (intro conjI impI)
  assume n: "2 \<le> n \<and> n \<le> 64"
  then have "nat n = Suc (nat (n - 1))" by linarith
  then have "(2::int) ^ nat n - 1 = 2 * (2 ^ nat (n - 1) - 1) + 1" by simp
  with n show "\<exists>t p. calculate_total n = Inr (PyInt t) \<and>
      calculate_total (n - 1) = Inr (PyInt p) \<and> t = 2 * p + 1"
    by (simp add: calculate_total_nonneg)
next
  show "calculate_total 1 = Inr (PyInt 1)"
    by (simp add: calculate_total_nonneg)
next
  assume "1 \<le> m \<and> m \<le> 63"
  then show "\<exists>t g. calculate_total m = Inr (PyInt t) \<and>
      calculate_grains (m + 1) = Inr (PyInt g) \<and> t = g - 1"
    by (simp add: calculate_total_nonneg calculate_grains_nonneg)
qed

theorem calculate_total_recurrence_witness:
  "calculate_total 5 = Inr (PyInt 31) \<and> calculate_total 4 = Inr (PyInt 15) \<and>
   (31::int) = 2 * 15 + 1 \<and> calculate_grains 6 = Inr (PyInt 32)"
proof -
  have "calculate_total 5 = Inr (PyInt 31)" "calculate_total 4 = Inr (PyInt 15)"
    "calculate_grains 6 = Inr (PyInt 32)"
    by (simp_all add: calculate_total_nonneg calculate_grains_nonneg)
  with calculate_total_recurrence [of 5 5] show ?thesis by simp
qed


section \<open>Rounding to double precision: properties\<close>


lemma double_limit_eq: "double_limit = 2 ^ 1024"
  by (simp add: double_limit_def)

lemma pow2_less_imp: "(2::rat) powi a < 2 powi b \<Longrightarrow> a < b"
  by (rule ccontr) (use power_int_increasing [of b a "2::rat"] in simp)

lemma pow2_le_imp: "(2::rat) powi a \<le> 2 powi b \<Longrightarrow> a \<le> b"
  by (rule ccontr) (use power_int_strict_increasing [of b a "2::rat"] in simp)

lemma bitlen_rat_bounds:
  assumes "0 < a"
  shows "2 powi (bitlen a - 1) \<le> (of_int a :: rat)" "(of_int a :: rat) < 2 powi bitlen a"
proof -
  from bitlen_bounds [OF assms] have b: "2 ^ nat (bitlen a - 1) \<le> a" "a < 2 ^ nat (bitlen a)"
    by simp_all
  have ge1: "1 \<le> bitlen a" using assms bitlen_eq_zero_iff [of a] bitlen_nonneg [of a] by linarith
  have "(of_int (2 ^ nat (bitlen a - 1)) :: rat) \<le> of_int a" using b(1) by (simp only: of_int_le_iff)
  then show "2 powi (bitlen a - 1) \<le> (of_int a :: rat)" using ge1 by (simp add: power_int_def)
  have "(of_int a :: rat) < of_int (2 ^ nat (bitlen a))" using b(2) by (simp only: of_int_less_iff)
  then show "(of_int a :: rat) < 2 powi bitlen a" using ge1 by (simp add: power_int_def)
qed

lemma ilog2_bounds:
  assumes "0 < q"
  shows "2 powi ilog2 q \<le> q" "q < 2 powi (ilog2 q + 1)"
proof -
  obtain a b where ab: "quotient_of q = (a, b)" by (cases "quotient_of q")
  have bpos: "0 < b" using ab by (rule quotient_of_denom_pos)
  have q: "q = of_int a / of_int b" using ab by (rule quotient_of_div)
  have apos: "0 < a" using assms bpos q by (simp add: zero_less_divide_iff)
  let ?d = "bitlen a - bitlen b"
  have B: "(0::rat) < of_int b" using bpos by simp
  have up: "q < 2 powi (?d + 1)"
  proof -
    have "of_int a * 2 powi (bitlen b - 1) < 2 powi bitlen a * (of_int b :: rat)"
      using bitlen_rat_bounds [OF apos] bitlen_rat_bounds [OF bpos] apos bpos
      by (intro mult_less_le_imp_less) simp_all
    then have "of_int a / of_int b < 2 powi bitlen a / (2 powi (bitlen b - 1) :: rat)"
      using B by (simp add: field_simps)
    also have "\<dots> = 2 powi (bitlen a - (bitlen b - 1))" by (simp add: power_int_diff)
    finally show ?thesis by (simp add: q algebra_simps)
  qed
  have lo: "2 powi (?d - 1) \<le> q"
  proof -
    have "2 powi (bitlen a - 1) * (of_int b :: rat) \<le> of_int a * 2 powi bitlen b"
      using bitlen_rat_bounds [OF apos] bitlen_rat_bounds [OF bpos] apos bpos
      by (intro mult_mono) simp_all
    then have "2 powi (bitlen a - 1) / (2 powi bitlen b :: rat) \<le> of_int a / of_int b"
      using B by (simp add: field_simps)
    moreover have "2 powi (bitlen a - 1) / (2 powi bitlen b :: rat) = 2 powi (bitlen a - 1 - bitlen b)"
      by (simp add: power_int_diff)
    ultimately show ?thesis by (simp add: q algebra_simps)
  qed
  show "2 powi ilog2 q \<le> q"
    using lo by (simp add: ilog2_def ab Let_def)
  show "q < 2 powi (ilog2 q + 1)"
    using up by (auto simp: ilog2_def ab Let_def not_le)
qed

lemma ilog2_unique:
  assumes "2 powi e \<le> q" "q < 2 powi (e + 1)"
  shows "ilog2 q = e"
proof -
  have "0 < q" using assms(1) zero_less_power_int [of "2::rat" e] by linarith
  note b = ilog2_bounds [OF this]
  have "2 powi e < (2::rat) powi (ilog2 q + 1)" using assms(1) b(2) by linarith
  then have 1: "e < ilog2 q + 1" by (rule pow2_less_imp)
  have "2 powi ilog2 q < (2::rat) powi (e + 1)" using assms(2) b(1) by linarith
  then have 2: "ilog2 q < e + 1" by (rule pow2_less_imp)
  from 1 2 show ?thesis by linarith
qed

lemma ilog2_pow2 [simp]: "ilog2 (2 powi k) = k"
  by (rule ilog2_unique) (simp_all add: power_int_strict_increasing)

lemma round_half_even_of_int [simp]: "round_half_even (of_int k) = k"
  by (simp add: round_half_even_def)

lemma round_half_even_bounds:
  "of_int (round_half_even q) \<le> q + 1 / 2" "q - 1 / 2 \<le> of_int (round_half_even q)"
  by (auto simp: round_half_even_def Let_def) linarith+

lemma floor_le_round_half_even: "\<lfloor>q\<rfloor> \<le> round_half_even q"
  by (simp add: round_half_even_def Let_def)

lemma round_half_even_mono_int:
  assumes "of_int k \<le> q"
  shows "k \<le> round_half_even q"
proof -
  have "k \<le> \<lfloor>q\<rfloor>" using assms by (simp add: le_floor_iff)
  with floor_le_round_half_even [of q] show ?thesis by linarith
qed

lemma round_half_even_le_int:
  assumes "q \<le> of_int k"
  shows "round_half_even q \<le> k"
proof (cases "of_int \<lfloor>q\<rfloor> = q")
  case True
  then have "round_half_even q = \<lfloor>q\<rfloor>" by (metis round_half_even_of_int)
  moreover have "\<lfloor>q\<rfloor> \<le> k" using floor_mono [OF assms] by simp
  ultimately show ?thesis by simp
next
  case False
  have "of_int \<lfloor>q\<rfloor> \<le> q" by (rule of_int_floor_le)
  then have "of_int \<lfloor>q\<rfloor> < q" using False by (rule le_neq_trans)
  with assms have "(of_int \<lfloor>q\<rfloor> :: rat) < of_int k" by linarith
  then have "\<lfloor>q\<rfloor> < k" by (simp only: of_int_less_iff)
  moreover have "round_half_even q \<le> \<lfloor>q\<rfloor> + 1" by (simp add: round_half_even_def Let_def)
  ultimately show ?thesis by linarith
qed

text \<open>The value of \<open>round_double\<close> on a positive argument, with the exponent made explicit.\<close>

lemma round_double_pos:
  assumes "0 < q"
  shows "round_double q =
     of_int (round_half_even (q / 2 powi (max (ilog2 q) (- 1022) - 52))) * 2 powi (max (ilog2 q) (- 1022) - 52)"
  using assms by (simp add: round_double_def Let_def)

lemma round_double_neg: "round_double (- q) = - round_double q"
  by (cases "q = 0") (auto simp: round_double_def Let_def sgn_if)

lemma round_double_exact:
  assumes "0 < q" "q = of_int m * 2 powi k" "max (ilog2 q) (- 1022) - 52 \<le> k"
  shows "round_double q = q"
proof -
  let ?u = "max (ilog2 q) (- 1022) - 52"
  have "q / 2 powi ?u = of_int m * 2 powi (k - ?u)"
    by (simp add: assms(2) power_int_diff)
  also have "2 powi (k - ?u) = (of_int (2 ^ nat (k - ?u)) :: rat)"
    using assms(3) by (simp add: power_int_def)
  finally have "q / 2 powi ?u = of_int (m * 2 ^ nat (k - ?u))" by simp
  then have "round_half_even (q / 2 powi ?u) = m * 2 ^ nat (k - ?u)"
    by (simp only: round_half_even_of_int)
  then have "round_double q = of_int (m * 2 ^ nat (k - ?u)) * 2 powi ?u"
    by (simp only: round_double_pos [OF assms(1)])
  also have "\<dots> = of_int m * (2 powi (k - ?u) * 2 powi ?u)"
    using assms(3) by (simp add: power_int_def)
  also have "2 powi (k - ?u) * (2::rat) powi ?u = 2 powi k"
    by (simp flip: power_int_add)
  finally show ?thesis by (simp add: assms(2))
qed

lemma round_double_pow2:
  assumes "- 1074 \<le> k"
  shows "round_double (2 powi k) = 2 powi k"
  by (rule round_double_exact [where m = 1 and k = k]) (use assms in simp_all)

lemma round_double_int:
  assumes "\<bar>i\<bar> < 2 ^ 53"
  shows "round_double (of_int i) = of_int i"
proof -
  have pos: "round_double (of_int j) = of_int j" if "0 < j" "j < 2 ^ 53" for j :: int
  proof (rule round_double_exact [where m = j and k = 0])
    show "(0::rat) < of_int j" using that by simp
    show "(of_int j :: rat) = of_int j * 2 powi 0" by simp
    have "(of_int j :: rat) < of_int (2 ^ 53)" using that(2) by (simp only: of_int_less_iff)
    then have "2 powi ilog2 (of_int j) < (2::rat) powi 53"
      using ilog2_bounds(1) [of "of_int j :: rat"] that(1) by simp
    then have "ilog2 (of_int j) < 53" by (rule pow2_less_imp)
    then show "max (ilog2 (of_int j)) (- 1022) - 52 \<le> 0" by simp
  qed
  show ?thesis
  proof (cases "i = 0")
    case True
    then show ?thesis by (simp add: round_double_def)
  next
    case False
    show ?thesis
    proof (cases "0 < i")
      case True
      with assms show ?thesis by (simp add: pos)
    next
      case neg: False
      with False assms have "0 < - i" "- i < 2 ^ 53" by simp_all
      from pos [OF this] round_double_neg [of "of_int (- i)"] show ?thesis by simp
    qed
  qed
qed

lemma round_double_underflow:
  assumes "0 < q" "q < 2 powi (- 1075)"
  shows "round_double q = 0"
proof -
  have "2 powi ilog2 q < (2::rat) powi (- 1075)" using ilog2_bounds(1) [OF assms(1)] assms(2) by linarith
  then have "ilog2 q < - 1075" by (rule pow2_less_imp)
  then have u: "max (ilog2 q) (- 1022) - 52 = - 1074" by simp
  have "q / 2 powi (- 1074) < 2 powi (- 1075) / 2 powi (- 1074)"
    using assms(2) by (simp add: divide_strict_right_mono)
  also have "\<dots> = (1 / 2 :: rat)" by (simp flip: power_int_diff)
  finally have lt: "q / 2 powi (- 1074) < 1 / 2" .
  have ge: "0 \<le> q / 2 powi (- 1074)" using assms(1) by simp
  have "\<lfloor>q / 2 powi (- 1074)\<rfloor> = 0" using lt ge by (simp add: floor_eq_iff)
  then have "round_half_even (q / 2 powi (- 1074)) = 0"
    using lt by (simp add: round_half_even_def Let_def)
  then show ?thesis by (simp add: round_double_pos [OF assms(1)] u)
qed

lemma pow2_split: "(of_int (2 ^ n) :: rat) * 2 powi (e - int n) = 2 powi e"
proof -
  have "(2::rat) powi (int n + (e - int n)) = 2 powi int n * 2 powi (e - int n)"
    by (rule power_int_add) simp
  then show ?thesis by simp
qed

text \<open>A rounded positive value stays within the binade of its argument.\<close>

lemma round_double_binade:
  assumes "0 < q" "- 1022 \<le> ilog2 q"
  shows "2 powi ilog2 q \<le> round_double q" "round_double q \<le> 2 powi (ilog2 q + 1)"
proof -
  let ?e = "ilog2 q"
  let ?u = "?e - 52"
  have u: "max ?e (- 1022) - 52 = ?u" using assms(2) by simp
  have upos: "(0::rat) < 2 powi ?u" by simp
  have "(2::rat) powi ?e / 2 powi ?u \<le> q / 2 powi ?u"
    using ilog2_bounds(1) [OF assms(1)] by (simp add: divide_right_mono)
  moreover have "(2::rat) powi ?e / 2 powi ?u = of_int (2 ^ 52)" by (simp flip: power_int_diff)
  ultimately have "2 ^ 52 \<le> round_half_even (q / 2 powi ?u)"
    by (intro round_half_even_mono_int) simp
  then have "(of_int (2 ^ 52) :: rat) \<le> of_int (round_half_even (q / 2 powi ?u))"
    by (simp only: of_int_le_iff)
  then have "of_int (2 ^ 52) * 2 powi ?u \<le> round_double q"
    unfolding round_double_pos [OF assms(1)] u using upos by (simp only: mult_le_cancel_right_pos)
  moreover have "(of_int (2 ^ 52) :: rat) * 2 powi ?u = 2 powi ?e"
    using pow2_split [of 52 ?e] by simp
  ultimately show "2 powi ?e \<le> round_double q" by simp
  have "q / 2 powi ?u \<le> (2::rat) powi (?e + 1) / 2 powi ?u"
    using ilog2_bounds(2) [OF assms(1)] by (simp add: divide_right_mono)
  moreover have "(2::rat) powi (?e + 1) / 2 powi ?u = of_int (2 ^ 53)" by (simp flip: power_int_diff)
  ultimately have "round_half_even (q / 2 powi ?u) \<le> 2 ^ 53"
    by (intro round_half_even_le_int) simp
  then have "(of_int (round_half_even (q / 2 powi ?u)) :: rat) \<le> of_int (2 ^ 53)"
    by (simp only: of_int_le_iff)
  then have "round_double q \<le> of_int (2 ^ 53) * 2 powi ?u"
    unfolding round_double_pos [OF assms(1)] u using upos by (simp only: mult_le_cancel_right_pos)
  moreover have "(of_int (2 ^ 53) :: rat) * 2 powi ?u = 2 powi (?e + 1)"
    using pow2_split [of 53 "?e + 1"] by simp
  ultimately show "round_double q \<le> 2 powi (?e + 1)" by simp
qed


section \<open>Series generator: properties\<close>


lemma map_err_Inr:
  "(\<And>x. x \<in> set xs \<Longrightarrow> f x = Inr (h x)) \<Longrightarrow> map_err f xs = Inr (map h xs)"
  by (induction xs) simp_all

lemma last_upto_int: "i \<le> j \<Longrightarrow> last [i..j] = j"
  by (simp add: upto_rec2 [of i j])

lemma py_range_squares:
  "1 \<le> n \<Longrightarrow> py_range 1 (min (n + 1) 65) = [1..min n 64]"
  by (simp add: py_range_def min_def)

lemma growth_chart_value:
  assumes "1 \<le> n"
  shows "create_exponential_growth_chart n =
     Inr \<lparr>sc_x = [1..min n 64], sc_y = map (\<lambda>s. PyInt (2 ^ nat (s - 1))) [1..min n 64],
          sc_highlight = (if 1 < n then Some (n, PyInt (2 ^ nat (min n 64 - 1))) else None)\<rparr>"
proof -
  have m: "map_err calculate_grains [1..min n 64] = Inr (map (\<lambda>s. PyInt (2 ^ nat (s - 1))) [1..min n 64])"
    by (rule map_err_Inr) (simp add: calculate_grains_nonneg)
  have ne: "[1..min n 64] \<noteq> []" using assms by simp
  have l: "last [1..min n 64] = min n 64" using assms by (simp add: last_upto_int)
  show ?thesis
    using assms ne
    by (simp add: create_exponential_growth_chart_def py_range_squares m py_last_def last_map l Let_def)
qed

lemma cumulative_chart_value:
  assumes "1 \<le> n"
  shows "create_cumulative_chart n =
     Inr \<lparr>sc_x = [1..min n 64], sc_y = map (\<lambda>s. PyInt (2 ^ nat s - 1)) [1..min n 64],
          sc_highlight = (if 1 < n then Some (n, PyInt (2 ^ nat (min n 64) - 1)) else None)\<rparr>"
proof -
  have m: "map_err calculate_total [1..min n 64] = Inr (map (\<lambda>s. PyInt (2 ^ nat s - 1)) [1..min n 64])"
    by (rule map_err_Inr) (simp add: calculate_total_nonneg)
  have ne: "[1..min n 64] \<noteq> []" using assms by simp
  have l: "last [1..min n 64] = min n 64" using assms by (simp add: last_upto_int)
  show ?thesis
    using assms ne
    by (simp add: create_cumulative_chart_def py_range_squares m py_last_def last_map l Let_def)
qed

lemma sum_pow2: "(\<Sum>j\<le>k. (2::rat) ^ j) = 2 ^ Suc k - 1"
  by (induction k) simp_all

text \<open>
  Claim C5. For every \<open>upTo \<ge> 1\<close> the per-square series and the cumulative series both
  have length \<open>min upTo 64\<close>; their indices are \<open>1, 2, \<dots>\<close> up to that length without a
  gap; the entry for square \<open>i\<close> is \<open>calculate_grains i\<close>, respectively
  \<open>calculate_total i\<close>; and every cumulative entry is the sum of the per-square entries up
  to it.
\<close>

theorem series_ok:
  "1 \<le> upTo \<longrightarrow>
     (\<exists>g c. create_exponential_growth_chart upTo = Inr g \<and> create_cumulative_chart upTo = Inr c \<and>
        length (sc_y g) = nat (min upTo 64) \<and> length (sc_y c) = nat (min upTo 64) \<and>
        sc_x g = [1..min upTo 64] \<and> sc_x c = [1..min upTo 64] \<and>
        (\<forall>k < nat (min upTo 64).
            sc_x g ! k = int k + 1 \<and> sc_x c ! k = int k + 1 \<and>
            calculate_grains (int k + 1) = Inr (sc_y g ! k) \<and>
            calculate_total (int k + 1) = Inr (sc_y c ! k) \<and>
            pyval_rat (sc_y c ! k) = (\<Sum>j\<le>k. pyval_rat (sc_y g ! j))))"
proof
  assume n: "1 \<le> upTo"
  let ?m = "min upTo 64"
  have nth: "[1..?m] ! k = int k + 1" if "k < nat ?m" for k
  proof -
    from that have "1 + int k \<le> ?m" by linarith
    then show ?thesis by (simp add: nth_upto)
  qed
  have len: "length [1..?m] = nat ?m" using n by simp
  have sum: "pyval_rat (map (\<lambda>s. PyInt (2 ^ nat s - 1)) [1..?m] ! k) =
      (\<Sum>j\<le>k. pyval_rat (map (\<lambda>s. PyInt (2 ^ nat (s - 1))) [1..?m] ! j))" if "k < nat ?m" for k
  proof -
    have "(\<Sum>j\<le>k. pyval_rat (map (\<lambda>s. PyInt (2 ^ nat (s - 1))) [1..?m] ! j)) = (\<Sum>j\<le>k. (2::rat) ^ j)"
      using that by (intro sum.cong refl) (simp add: nth len pyval_rat_def)
    then show ?thesis
      using that by (simp add: nth len pyval_rat_def sum_pow2 nat_add_distrib)
  qed
  show "\<exists>g c. create_exponential_growth_chart upTo = Inr g \<and> create_cumulative_chart upTo = Inr c \<and>
        length (sc_y g) = nat (min upTo 64) \<and> length (sc_y c) = nat (min upTo 64) \<and>
        sc_x g = [1..min upTo 64] \<and> sc_x c = [1..min upTo 64] \<and>
        (\<forall>k < nat (min upTo 64).
            sc_x g ! k = int k + 1 \<and> sc_x c ! k = int k + 1 \<and>
            calculate_grains (int k + 1) = Inr (sc_y g ! k) \<and>
            calculate_total (int k + 1) = Inr (sc_y c ! k) \<and>
            pyval_rat (sc_y c ! k) = (\<Sum>j\<le>k. pyval_rat (sc_y g ! j)))"
    unfolding growth_chart_value [OF n] cumulative_chart_value [OF n]
    using n sum by (simp add: nth len calculate_grains_nonneg calculate_total_nonneg nat_add_distrib)
qed


theorem series_ok_witness:
  "(1::int) \<le> 3 \<and>
   (\<exists>g c. create_exponential_growth_chart 3 = Inr g \<and> create_cumulative_chart 3 = Inr c \<and>
      length (sc_y g) = 3 \<and> length (sc_y c) = 3 \<and> sc_x g = [1, 2, 3] \<and> sc_x c = [1, 2, 3] \<and>
      calculate_grains 3 = Inr (sc_y g ! 2) \<and> calculate_total 3 = Inr (sc_y c ! 2) \<and>
      pyval_rat (sc_y c ! 2) = (\<Sum>j\<le>2. pyval_rat (sc_y g ! j)))"
proof -
  have u: "[1..3::int] = [1, 2, 3]" by code_simp
  from series_ok [of 3] obtain g c where
    h: "create_exponential_growth_chart 3 = Inr g" "create_cumulative_chart 3 = Inr c"
      "length (sc_y g) = 3" "length (sc_y c) = 3" "sc_x g = [1..3]" "sc_x c = [1..3]"
      "\<forall>k<3. sc_x g ! k = int k + 1 \<and> sc_x c ! k = int k + 1 \<and>
            calculate_grains (int k + 1) = Inr (sc_y g ! k) \<and>
            calculate_total (int k + 1) = Inr (sc_y c ! k) \<and>
            pyval_rat (sc_y c ! k) = (\<Sum>j\<le>k. pyval_rat (sc_y g ! j))"
    by auto
  from h(7) have "calculate_grains 3 = Inr (sc_y g ! 2) \<and> calculate_total 3 = Inr (sc_y c ! 2) \<and>
      pyval_rat (sc_y c ! 2) = (\<Sum>j\<le>2. pyval_rat (sc_y g ! j))"
    by (auto dest: spec [of _ 2])
  with h u show ?thesis by auto
qed

section \<open>Chessboard heat map: properties\<close>


lemma board_ok_set_cell: "board_ok b \<Longrightarrow> board_ok (set_cell b i j v)"
  by (cases "i < 8") (auto simp: board_ok_def set_cell_def nth_list_update)

lemma set_cell_nth:
  "board_ok b \<Longrightarrow> i < 8 \<Longrightarrow> j < 8 \<Longrightarrow> i' < 8 \<Longrightarrow> j' < 8 \<Longrightarrow>
   set_cell b i j v ! i' ! j' = (if i' = i \<and> j' = j then v else b ! i' ! j')"
  by (auto simp: board_ok_def set_cell_def nth_list_update)

lemma cell_update:
  "int i * 8 + int j + 1 \<le> cs \<Longrightarrow>
   bind_err (calculate_grains (int i * 8 + int j + 1))
     (\<lambda>g. bind_err (py_add_int g 1) (\<lambda>a. Inr (set_cell b i j (np_log10 a))))
   = Inr (set_cell b i j (log_cell i j))"
proof -
  have "nat (int i * 8 + int j) = i * 8 + j" by (simp add: nat_add_distrib nat_mult_distrib)
  then show ?thesis
    by (simp add: calculate_grains_nonneg py_add_int_def np_log10_def pyval_rat_def log_cell_def
        of_rat_add of_rat_power)
qed

lemma heatmap_row_cells:
  assumes "board_ok b" "i < 8" "\<forall>j\<in>set js. j < 8"
  shows "\<exists>b' anns'. heatmap_row cs i js (b, anns) = Inr (b', anns') \<and> board_ok b' \<and>
     (\<forall>i'<8. \<forall>j'<8. b' ! i' ! j' =
        (if i' = i \<and> j' \<in> set js \<and> int i * 8 + int j' + 1 \<le> cs then log_cell i j'
         else b ! i' ! j'))"
  using assms
proof (induction js arbitrary: b anns)
  case Nil
  then show ?case by simp
next
  case (Cons j js)
  let ?b1 = "if int i * 8 + int j + 1 \<le> cs then set_cell b i j (log_cell i j) else b"
  have ok1: "board_ok ?b1" using Cons.prems(1) by (simp add: board_ok_set_cell)
  have j8: "j < 8" using Cons.prems(3) by simp
  from Cons.IH [OF ok1 Cons.prems(2), of "anns @ [\<lparr>ann_x = j, ann_y = i,
      ann_text = py_str_int (int i * 8 + int j + 1), ann_white = (5 < ?b1 ! i ! j)\<rparr>]"]
    Cons.prems(3)
  obtain b' anns' where
    r: "heatmap_row cs i js (?b1, anns @ [\<lparr>ann_x = j, ann_y = i,
          ann_text = py_str_int (int i * 8 + int j + 1), ann_white = (5 < ?b1 ! i ! j)\<rparr>])
        = Inr (b', anns')"
    and ok: "board_ok b'"
    and cells: "\<forall>i'<8. \<forall>j'<8. b' ! i' ! j' =
        (if i' = i \<and> j' \<in> set js \<and> int i * 8 + int j' + 1 \<le> cs then log_cell i j'
         else ?b1 ! i' ! j')"
    by auto
  have step: "heatmap_row cs i (j # js) (b, anns) = Inr (b', anns')"
    using r by (cases "int i * 8 + int j + 1 \<le> cs") (simp_all add: Let_def cell_update)
  have "\<forall>i'<8. \<forall>j'<8. b' ! i' ! j' =
        (if i' = i \<and> j' \<in> set (j # js) \<and> int i * 8 + int j' + 1 \<le> cs then log_cell i j'
         else b ! i' ! j')"
    using cells Cons.prems(1,2) j8 by (auto simp: set_cell_nth)
  with step ok show ?case by blast
qed

lemma heatmap_rows_cells:
  assumes "board_ok b" "\<forall>i\<in>set is. i < 8"
  shows "\<exists>b' anns'. heatmap_rows cs is (b, anns) = Inr (b', anns') \<and> board_ok b' \<and>
     (\<forall>i'<8. \<forall>j'<8. b' ! i' ! j' =
        (if i' \<in> set is \<and> int i' * 8 + int j' + 1 \<le> cs then log_cell i' j'
         else b ! i' ! j'))"
  using assms
proof (induction "is" arbitrary: b anns)
  case Nil
  then show ?case by simp
next
  case (Cons i "is")
  have i8: "i < 8" using Cons.prems(2) by simp
  from heatmap_row_cells [OF Cons.prems(1) i8, of "[0..<8]" cs anns]
  obtain b1 anns1 where
    r1: "heatmap_row cs i [0..<8] (b, anns) = Inr (b1, anns1)" and ok1: "board_ok b1"
    and c1: "\<forall>i'<8. \<forall>j'<8. b1 ! i' ! j' =
        (if i' = i \<and> j' \<in> set [0..<8] \<and> int i * 8 + int j' + 1 \<le> cs then log_cell i j'
         else b ! i' ! j')"
    by auto
  from Cons.IH [OF ok1, of anns1] Cons.prems(2)
  obtain b' anns' where
    r: "heatmap_rows cs is (b1, anns1) = Inr (b', anns')" and ok: "board_ok b'"
    and c: "\<forall>i'<8. \<forall>j'<8. b' ! i' ! j' =
        (if i' \<in> set is \<and> int i' * 8 + int j' + 1 \<le> cs then log_cell i' j'
         else b1 ! i' ! j')"
    by auto
  have step: "heatmap_rows cs (i # is) (b, anns) = Inr (b', anns')"
    using r1 r by simp
  have "\<forall>i'<8. \<forall>j'<8. b' ! i' ! j' =
        (if i' \<in> set (i # is) \<and> int i' * 8 + int j' + 1 \<le> cs then log_cell i' j'
         else b ! i' ! j')"
    using c c1 by auto
  with step ok show ?case by blast
qed

lemma customdata_ok: "\<exists>cd. heatmap_customdata cs = Inr cd"
proof -
  have inner: "map_err (\<lambda>j. if int i * 8 + int j + 1 \<le> cs
         then calculate_grains (int i * 8 + int j + 1) else Inr (PyInt 0)) [0..<8]
      = Inr (map (\<lambda>j. if int i * 8 + int j + 1 \<le> cs
         then PyInt (2 ^ nat (int i * 8 + int j)) else PyInt 0) [0..<8])" for i
    by (rule map_err_Inr) (simp add: calculate_grains_nonneg)
  show ?thesis
    unfolding heatmap_customdata_def inner
    by (simp add: map_err_Inr [where h = "\<lambda>i. map (\<lambda>j. if int i * 8 + int j + 1 \<le> cs
         then PyInt (2 ^ nat (int i * 8 + int j)) else PyInt 0) [0..<8]"])
qed

lemma heatmap_cells:
  "\<exists>h. create_chessboard_heatmap cs = Inr h \<and> length (hm_z h) = 8 \<and>
     (\<forall>i<8. length (hm_z h ! i) = 8 \<and>
        (\<forall>j<8. hm_z h ! i ! j =
           (if int i * 8 + int j + 1 \<le> cs then log_cell i j else 0)))"
proof -
  have ok0: "board_ok (replicate 8 (replicate 8 0))" by (simp add: board_ok_def)
  from heatmap_rows_cells [OF ok0, of "[0..<8]" cs "[]"]
  obtain b' anns' where
    r: "heatmap_rows cs [0..<8] (replicate 8 (replicate 8 0), []) = Inr (b', anns')"
    and ok: "board_ok b'"
    and c: "\<forall>i'<8. \<forall>j'<8. b' ! i' ! j' =
        (if i' \<in> set [0..<8] \<and> int i' * 8 + int j' + 1 \<le> cs then log_cell i' j'
         else replicate 8 (replicate 8 (0::real)) ! i' ! j')"
    by auto
  obtain cd where cd: "heatmap_customdata cs = Inr cd" using customdata_ok by blast
  show ?thesis
    using ok c by (simp add: create_chessboard_heatmap_def r cd board_ok_def)
qed

lemma log_cell_pos: "0 < log_cell i j"
proof -
  have "(0 < log 10 (real_of_int (2 ^ (i * 8 + j)) + 1)) = (1 < real_of_int (2 ^ (i * 8 + j)) + 1)"
    by (rule zero_less_log_cancel_iff) (simp_all add: add_pos_pos)
  then show ?thesis by (simp add: log_cell_def)
qed

text \<open>
  Claim C6. For every \<open>upTo\<close> from 1 to 64 the 8 by 8 grid holds, in row \<open>i\<close> and column
  \<open>j\<close> (both from 0), the value for square \<open>i * 8 + j + 1\<close>: the base-10 logarithm of
  \<open>calculate_grains\<close> of that square plus one when the square is at most \<open>upTo\<close>, which is
  not zero, and exactly 0 when the square is beyond \<open>upTo\<close>. For \<open>upTo = 1\<close> the cell of
  square 1 holds \<open>log 10 2\<close>, which is not zero, and the other 63 cells hold 0.
\<close>

theorem heatmap_log_grid:
  "(1 \<le> upTo \<and> upTo \<le> 64 \<longrightarrow>
     (\<exists>h. create_chessboard_heatmap upTo = Inr h \<and> length (hm_z h) = 8 \<and>
        (\<forall>i<8. length (hm_z h ! i) = 8 \<and>
           (\<forall>j<8.
              (int i * 8 + int j + 1 \<le> upTo \<longrightarrow>
                 (\<exists>g. calculate_grains (int i * 8 + int j + 1) = Inr (PyInt g) \<and>
                      hm_z h ! i ! j = log 10 (real_of_int g + 1) \<and> hm_z h ! i ! j \<noteq> 0)) \<and>
              (upTo < int i * 8 + int j + 1 \<longrightarrow> hm_z h ! i ! j = 0))))) \<and>
   (\<exists>h. create_chessboard_heatmap 1 = Inr h \<and> hm_z h ! 0 ! 0 = log 10 2 \<and> log 10 2 \<noteq> (0::real) \<and>
        (\<forall>i<8. \<forall>j<8. (i, j) \<noteq> (0, 0) \<longrightarrow> hm_z h ! i ! j = 0))"
proof (intro conjI impI)
  obtain h where h: "create_chessboard_heatmap upTo = Inr h" "length (hm_z h) = 8"
    "\<forall>i<8. length (hm_z h ! i) = 8 \<and>
        (\<forall>j<8. hm_z h ! i ! j =
           (if int i * 8 + int j + 1 \<le> upTo then log_cell i j else 0))"
    using heatmap_cells [of upTo] by blast
  have g: "calculate_grains (int i * 8 + int j + 1) = Inr (PyInt (2 ^ (i * 8 + j)))" for i j
    by (simp add: calculate_grains_nonneg nat_add_distrib nat_mult_distrib)
  have "\<forall>i<8. length (hm_z h ! i) = 8 \<and>
           (\<forall>j<8.
              (int i * 8 + int j + 1 \<le> upTo \<longrightarrow>
                 (\<exists>g. calculate_grains (int i * 8 + int j + 1) = Inr (PyInt g) \<and>
                      hm_z h ! i ! j = log 10 (real_of_int g + 1) \<and> hm_z h ! i ! j \<noteq> 0)) \<and>
              (upTo < int i * 8 + int j + 1 \<longrightarrow> hm_z h ! i ! j = 0))"
  proof (intro allI impI conjI)
    fix i :: nat assume "i < 8"
    then show "length (hm_z h ! i) = 8" using h(3) by simp
  next
    fix i j :: nat assume ij: "i < 8" "j < 8" and le: "int i * 8 + int j + 1 \<le> upTo"
    then have c: "hm_z h ! i ! j = log_cell i j" using h(3) by simp
    have "hm_z h ! i ! j \<noteq> 0" using log_cell_pos [of i j] c by simp
    with c g [of i j] show "\<exists>g. calculate_grains (int i * 8 + int j + 1) = Inr (PyInt g) \<and>
        hm_z h ! i ! j = log 10 (real_of_int g + 1) \<and> hm_z h ! i ! j \<noteq> 0"
      by (simp add: log_cell_def)
  next
    fix i j :: nat assume "i < 8" "j < 8" "upTo < int i * 8 + int j + 1"
    then show "hm_z h ! i ! j = 0" using h(3) by simp
  qed
  with h(1,2) show "\<exists>h. create_chessboard_heatmap upTo = Inr h \<and> length (hm_z h) = 8 \<and>
        (\<forall>i<8. length (hm_z h ! i) = 8 \<and>
           (\<forall>j<8.
              (int i * 8 + int j + 1 \<le> upTo \<longrightarrow>
                 (\<exists>g. calculate_grains (int i * 8 + int j + 1) = Inr (PyInt g) \<and>
                      hm_z h ! i ! j = log 10 (real_of_int g + 1) \<and> hm_z h ! i ! j \<noteq> 0)) \<and>
              (upTo < int i * 8 + int j + 1 \<longrightarrow> hm_z h ! i ! j = 0)))"
    by blast
next
  obtain h where h: "create_chessboard_heatmap 1 = Inr h"
    "\<forall>i<8. length (hm_z h ! i) = 8 \<and>
        (\<forall>j<8. hm_z h ! i ! j =
           (if int i * 8 + int j + 1 \<le> 1 then log_cell i j else 0))"
    using heatmap_cells [of 1] by blast
  have "(0::real) < log 10 2" by simp
  then have l2: "log 10 2 \<noteq> (0::real)" by linarith
  have z: "hm_z h ! 0 ! 0 = log 10 2" using h(2) by (simp add: log_cell_def)
  have "\<forall>i<8. \<forall>j<8. (i, j) \<noteq> (0, 0) \<longrightarrow> hm_z h ! i ! j = 0"
  proof (intro allI impI)
    fix i j :: nat assume ij: "i < 8" "j < 8" "(i, j) \<noteq> (0, 0)"
    then have "\<not> int i * 8 + int j + 1 \<le> 1" by auto
    with ij h(2) show "hm_z h ! i ! j = 0" by simp
  qed
  with h(1) z l2 show "\<exists>h. create_chessboard_heatmap 1 = Inr h \<and> hm_z h ! 0 ! 0 = log 10 2 \<and>
      log 10 2 \<noteq> (0::real) \<and> (\<forall>i<8. \<forall>j<8. (i, j) \<noteq> (0, 0) \<longrightarrow> hm_z h ! i ! j = 0)"
    by blast
qed

theorem heatmap_log_grid_witness:
  "(1::int) \<le> 10 \<and> (10::int) \<le> 64 \<and>
   (\<exists>h. create_chessboard_heatmap 10 = Inr h \<and> length (hm_z h) = 8 \<and>
      hm_z h ! 1 ! 1 = log 10 513 \<and> hm_z h ! 1 ! 2 = 0)"
proof -
  from heatmap_log_grid [of 10] obtain h where
    h: "create_chessboard_heatmap 10 = Inr h" "length (hm_z h) = 8"
    "\<forall>i<8. length (hm_z h ! i) = 8 \<and>
        (\<forall>j<8.
           (int i * 8 + int j + 1 \<le> 10 \<longrightarrow>
              (\<exists>g. calculate_grains (int i * 8 + int j + 1) = Inr (PyInt g) \<and>
                   hm_z h ! i ! j = log 10 (real_of_int g + 1) \<and> hm_z h ! i ! j \<noteq> 0)) \<and>
           (10 < int i * 8 + int j + 1 \<longrightarrow> hm_z h ! i ! j = 0))"
    by auto
  from h(3) have r: "\<forall>j<8.
           (int 1 * 8 + int j + 1 \<le> 10 \<longrightarrow>
              (\<exists>g. calculate_grains (int 1 * 8 + int j + 1) = Inr (PyInt g) \<and>
                   hm_z h ! 1 ! j = log 10 (real_of_int g + 1) \<and> hm_z h ! 1 ! j \<noteq> 0)) \<and>
           (10 < int 1 * 8 + int j + 1 \<longrightarrow> hm_z h ! 1 ! j = 0)"
    by (auto dest: spec [of _ 1])
  from r have "\<exists>g. calculate_grains 10 = Inr (PyInt g) \<and> hm_z h ! 1 ! 1 = log 10 (real_of_int g + 1)"
    by (auto dest: spec [of _ 1])
  then have a: "hm_z h ! 1 ! 1 = log 10 513" by (auto simp: calculate_grains_nonneg)
  from r have b: "hm_z h ! 1 ! 2 = 0" by (auto dest: spec [of _ 2])
  from h(1,2) a b show ?thesis by auto
qed


section \<open>Conversion to float and the magnitude formatter: properties\<close>


lemma round_double_nonneg:
  assumes "0 \<le> q"
  shows "0 \<le> round_double q"
proof (cases "q = 0")
  case True
  then show ?thesis by (simp add: round_double_def)
next
  case False
  with assms have pos: "0 < q" by simp
  let ?u = "(2::rat) powi (max (ilog2 q) (- 1022) - 52)"
  have "0 \<le> q / ?u" using pos by simp
  then have "(of_int 0 :: rat) \<le> q / ?u" by simp
  then have "0 \<le> round_half_even (q / ?u)" by (rule round_half_even_mono_int)
  then show ?thesis unfolding round_double_pos [OF pos] by simp
qed

lemma float_literal_int:
  "\<bar>i\<bar> < 2 ^ 53 \<Longrightarrow> float_literal (of_int i) = of_int i"
  by (simp add: float_literal_def round_double_int)

lemma float_literal_thresholds:
  "float_literal 1000000 = 1000000" "float_literal 1000000000 = 1000000000"
  "float_literal 1000000000000 = 1000000000000"
  "float_literal 1000000000000000 = 1000000000000000"
  using float_literal_int [of 1000000] float_literal_int [of 1000000000]
    float_literal_int [of 1000000000000] float_literal_int [of 1000000000000000]
  by simp_all

lemma float_of_int_small:
  assumes "\<bar>i\<bar> < 2 ^ 53"
  shows "float_of_int i = Inr (of_int i)"
proof -
  have "\<bar>i\<bar> < 2 ^ 1024" using assms by (rule less_trans) simp
  then have "(of_int \<bar>i\<bar> :: rat) < of_int (2 ^ 1024)" by (simp only: of_int_less_iff)
  then have "\<bar>of_int i :: rat\<bar> < 2 ^ 1024" by simp
  then show ?thesis by (simp add: float_of_int_def double_limit_eq round_double_int [OF assms])
qed

text \<open>Integers below \<open>2 ^ 1023\<close> convert to float; integers from \<open>2 ^ 1024\<close> on do not.\<close>

lemma float_of_int_fits:
  assumes "0 \<le> i" "i < 2 ^ 1023"
  shows "\<exists>x. float_of_int i = Inr x \<and> 0 \<le> x"
proof (cases "i = 0")
  case True
  then show ?thesis by (simp add: float_of_int_small)
next
  case False
  with assms have ipos: "0 < i" by simp
  let ?q = "of_int i :: rat"
  have pos: "0 < ?q" using ipos by simp
  have "(of_int 1 :: rat) \<le> ?q" using ipos by (simp only: of_int_le_iff)
  then have "(2::rat) powi 0 \<le> ?q" by simp
  also have "?q < 2 powi (ilog2 ?q + 1)" by (rule ilog2_bounds(2) [OF pos])
  finally have "0 < ilog2 ?q + 1" by (rule pow2_less_imp)
  then have lo: "- 1022 \<le> ilog2 ?q" by simp
  have "?q < of_int (2 ^ 1023)" using assms(2) by (simp only: of_int_less_iff)
  then have "2 powi ilog2 ?q < (2::rat) powi 1023" using ilog2_bounds(1) [OF pos] by simp
  then have "ilog2 ?q < 1023" by (rule pow2_less_imp)
  then have "ilog2 ?q + 1 \<le> 1023" by simp
  then have "(2::rat) powi (ilog2 ?q + 1) \<le> 2 powi 1023" by (intro power_int_increasing) simp_all
  with round_double_binade(2) [OF pos lo] have "round_double ?q \<le> 2 powi 1023" by linarith
  moreover have "(2::rat) powi 1023 < 2 ^ 1024" by simp
  ultimately have "round_double ?q < 2 ^ 1024" by linarith
  moreover have "0 \<le> round_double ?q" using pos by (intro round_double_nonneg) simp
  ultimately show ?thesis by (simp add: float_of_int_def double_limit_eq)
qed


text \<open>\<open>format_number\<close> raises only when the conversion of its argument to float does.\<close>

lemma format_number_cases:
  assumes "to_float v = Inr x"
  shows "format_number v = Inr
     (if pyval_rat v < 10 ^ 6 then format_fixed True 0 x
      else if pyval_rat v < 10 ^ 9 then format_fixed False 2 (round_double (x / 10 ^ 6)) @ ''M''
      else if pyval_rat v < 10 ^ 12 then format_fixed False 2 (round_double (x / 10 ^ 9)) @ ''B''
      else if pyval_rat v < 10 ^ 15 then format_fixed False 2 (round_double (x / 10 ^ 12)) @ ''T''
      else format_fixed False 2 (round_double (x / 10 ^ 15)) @ ''Q'')"
  by (simp add: format_number_def float_literal_thresholds py_lt_float_def py_format_f_def
      py_truediv_float_def assms)



section \<open>The quantity engine outside the board\<close>


lemma calculate_grains_float:
  assumes "n \<le> 0" "- (2 ^ 53) < n - 1"
  shows "calculate_grains n = Inr (PyFloat (round_double (2 powi (n - 1))))"
proof -
  have "\<bar>n - 1\<bar> < 2 ^ 53" using assms by simp
  from float_of_int_small [OF this] assms(1) show ?thesis
    by (simp add: calculate_grains_def py_pow2_def)
qed

lemma calculate_grains_neg_exact:
  assumes "- 1073 \<le> n" "n \<le> 0"
  shows "calculate_grains n = Inr (PyFloat (2 powi (n - 1)))"
proof -
  have "calculate_grains n = Inr (PyFloat (round_double (2 powi (n - 1))))"
    using assms by (intro calculate_grains_float) simp_all
  moreover have "round_double (2 powi (n - 1)) = 2 powi (n - 1)"
    using assms(1) by (intro round_double_pow2) simp
  ultimately show ?thesis by simp
qed

lemma calculate_grains_underflow:
  assumes "- (2 ^ 53) < n - 1" "n \<le> - 1075"
  shows "calculate_grains n = Inr (PyFloat 0)"
proof -
  have "calculate_grains n = Inr (PyFloat (round_double (2 powi (n - 1))))"
    using assms by (intro calculate_grains_float) simp_all
  moreover have "(2::rat) powi (n - 1) < 2 powi (- 1075)"
    using assms(2) by (intro power_int_strict_increasing) simp_all
  then have "round_double (2 powi (n - 1)) = 0"
    by (intro round_double_underflow) simp_all
  ultimately show ?thesis by simp
qed

lemma pow2_neg_not_int:
  assumes "k < 0"
  shows "(2::rat) powi k \<notin> \<int>"
proof
  assume "(2::rat) powi k \<in> \<int>"
  then obtain z :: int where z: "(2::rat) powi k = of_int z" by (auto elim: Ints_cases)
  have "(0::rat) < 2 powi k" by simp
  then have "(of_int 0 :: rat) < of_int z" unfolding z by simp
  then have 1: "0 < z" by (simp only: of_int_less_iff)
  have "(2::rat) powi k < 2 powi 0" using assms by (intro power_int_strict_increasing) simp_all
  then have "(of_int z :: rat) < of_int 1" unfolding z by simp
  then have "z < 1" by (simp only: of_int_less_iff)
  with 1 show False by simp
qed

text \<open>
  Claim C10, as amended. For every integer \<open>n\<close> from \<open>-1073\<close> to 0, \<open>calculate_grains n\<close>
  raises no error and returns the float \<open>2 ^ (n - 1)\<close>, which is not an integer
  (\<open>calculate_grains 0\<close> is one half), and \<open>calculate_total 0\<close> is the integer 0. For
  \<open>m \<le> -1075\<close> (as long as the exponent converts to float exactly) the result still is no
  error but the float zero: the power underflows.
\<close>

theorem calculate_grains_nonpositive:
  "(- 1073 \<le> n \<and> n \<le> 0 \<longrightarrow>
      calculate_grains n = Inr (PyFloat (2 powi (n - 1))) \<and> (2::rat) powi (n - 1) \<notin> \<int>) \<and>
   calculate_grains 0 = Inr (PyFloat (1 / 2)) \<and>
   calculate_total 0 = Inr (PyInt 0) \<and>
   (- (2 ^ 53) < m - 1 \<and> m \<le> - 1075 \<longrightarrow> calculate_grains m = Inr (PyFloat 0))"
proof (intro conjI impI)
  assume "- 1073 \<le> n \<and> n \<le> 0"
  then show "calculate_grains n = Inr (PyFloat (2 powi (n - 1)))"
    by (simp add: calculate_grains_neg_exact)
next
  assume "- 1073 \<le> n \<and> n \<le> 0"
  then show "(2::rat) powi (n - 1) \<notin> \<int>" by (intro pow2_neg_not_int) simp
next
  show "calculate_grains 0 = Inr (PyFloat (1 / 2))"
    using calculate_grains_neg_exact [of 0] by simp
next
  show "calculate_total 0 = Inr (PyInt 0)" by (simp add: calculate_total_nonneg)
next
  assume "- (2 ^ 53) < m - 1 \<and> m \<le> - 1075"
  then show "calculate_grains m = Inr (PyFloat 0)" by (simp add: calculate_grains_underflow)
qed

theorem calculate_grains_nonpositive_witness:
  "(- 1073::int) \<le> - 3 \<and> (- 3::int) \<le> 0 \<and>
   calculate_grains (- 3) = Inr (PyFloat (1 / 16)) \<and> (1 / 16 :: rat) \<notin> \<int> \<and>
   - (2 ^ 53) < (- 2000::int) - 1 \<and> (- 2000::int) \<le> - 1075 \<and>
   calculate_grains (- 2000) = Inr (PyFloat 0)"
  using calculate_grains_nonpositive [of "- 3" "- 2000"] by simp

theorem calculate_grains_underflow_counterexample:
  "calculate_grains (- 2000) = Inr (PyFloat 0) \<and>
   calculate_grains (- 2000) \<noteq> Inr (PyFloat (2 powi (- 2000 - 1)))"
  using calculate_grains_underflow [of "- 2000"] by simp


section \<open>The brackets of the magnitude formatter\<close>










section \<open>The outputs: comparison data set and out-of-range indices\<close>


lemma format_number_total:
  "to_float v = Inr x \<Longrightarrow> \<exists>s. format_number v = Inr s"
  by (simp add: format_number_cases)

lemma grain_weight_kg_value: "grain_weight_kg = 5902958103587057 / 295147905179352825856"
  by code_simp

lemma narrative_block_total:
  assumes "to_float g = Inr x" "to_float t = Inr y"
  shows "\<exists>p. narrative_block n g t = Inr p"
proof -
  obtain fg where fg: "format_number g = Inr fg" using format_number_total [OF assms(1)] by blast
  have w: "py_mul_float t c = Inr (round_double (y * c))" for c
    by (simp add: py_mul_float_def assms(2))
  obtain fw where fw: "format_number (PyFloat (round_double (y * grain_weight_kg))) = Inr fw"
    using format_number_total [of "PyFloat _"] by (auto simp: to_float_def)
  have k: "float_of_int 1000 = Inr 1000" using float_of_int_small [of 1000] by simp
  have d: "py_truediv_int (PyFloat z) 1000 = Inr (round_double (z / 1000))" for z
    by (simp add: py_truediv_int_def k py_truediv_float_def to_float_def)
  obtain ft where ft: "format_number (PyFloat (round_double
      (round_double (y * grain_weight_kg) / 1000))) = Inr ft"
    using format_number_total [of "PyFloat _"] by (auto simp: to_float_def)
  show ?thesis by (simp add: narrative_block_def fg w fw d ft)
qed

lemma to_float_calculate_grains:
  assumes "- (2 ^ 53) < n - 1" "n \<le> 1023"
  shows "\<exists>g x. calculate_grains n = Inr g \<and> to_float g = Inr x"
proof (cases "1 \<le> n")
  case True
  have "(2::int) ^ nat (n - 1) < 2 ^ 1023" using assms(2) True by (intro power_strict_increasing) simp_all
  from float_of_int_fits [OF _ this] True show ?thesis
    by (auto simp: calculate_grains_nonneg to_float_def)
next
  case False
  with assms show ?thesis by (simp add: calculate_grains_float to_float_def)
qed

lemma to_float_calculate_total:
  assumes "- (2 ^ 53) < n" "n \<le> 1023"
  shows "\<exists>t y. calculate_total n = Inr t \<and> to_float t = Inr y"
proof (cases "0 \<le> n")
  case True
  have "(2::int) ^ nat n \<le> 2 ^ 1023" using assms(2) True by (intro power_increasing) simp_all
  then have "(2::int) ^ nat n - 1 < 2 ^ 1023" by linarith
  from float_of_int_fits [OF _ this] True show ?thesis
    by (auto simp: calculate_total_nonneg to_float_def)
next
  case False
  then have "\<bar>n\<bar> < 2 ^ 53" using assms(1) by simp
  from float_of_int_small [OF this] float_of_int_small [of 1] False show ?thesis
    by (simp add: calculate_total_def py_pow2_def py_sub_int_def to_float_def)
qed

lemma stats_html_total:
  assumes "- (2 ^ 53) < n - 1" "n \<le> 1023"
  shows "\<exists>s. stats_html n = Inr s"
proof -
  obtain g x where g: "calculate_grains n = Inr g" "to_float g = Inr x"
    using to_float_calculate_grains [OF assms] by blast
  obtain t y where t: "calculate_total n = Inr t" "to_float t = Inr y"
    using to_float_calculate_total [of n] assms by auto
  obtain fg where fg: "format_number g = Inr fg" using format_number_total [OF g(2)] by blast
  obtain ft where ft: "format_number t = Inr ft" using format_number_total [OF t(2)] by blast
  obtain p where p: "narrative_block n g t = Inr p"
    using narrative_block_total [OF g(2) t(2)] by blast
  show ?thesis by (simp add: stats_html_def g t fg ft p)
qed

lemma growth_chart_nonpositive:
  "n \<le> 0 \<Longrightarrow> create_exponential_growth_chart n = Inr \<lparr>sc_x = [], sc_y = [], sc_highlight = None\<rparr>"
  by (simp add: create_exponential_growth_chart_def py_range_def Let_def)

lemma cumulative_chart_nonpositive:
  "n \<le> 0 \<Longrightarrow> create_cumulative_chart n = Inr \<lparr>sc_x = [], sc_y = [], sc_highlight = None\<rparr>"
  by (simp add: create_cumulative_chart_def py_range_def Let_def)

lemma comparisons_value:
  "comparisons =
     [(''World Population\<newline>(8 billion)'', 8000000000),
      (''Seconds in\<newline>1 million years'', 31500000000000),
      (''Grains of sand\<newline>on Earth'', 7500000000000000000),
      (''Total Rice Grains\<newline>(64 squares)'', 18446744070000001024),
      (''Stars in\<newline>observable universe'', 999999999999999983222784)]"
  by code_simp

lemma format_number_PyFloat:
  "format_number (PyFloat x) = Inr
     (if x < 10 ^ 6 then format_fixed True 0 x
      else if x < 10 ^ 9 then format_fixed False 2 (round_double (x / 10 ^ 6)) @ ''M''
      else if x < 10 ^ 12 then format_fixed False 2 (round_double (x / 10 ^ 9)) @ ''B''
      else if x < 10 ^ 15 then format_fixed False 2 (round_double (x / 10 ^ 12)) @ ''T''
      else format_fixed False 2 (round_double (x / 10 ^ 15)) @ ''Q'')"
  using format_number_cases [of "PyFloat x" x] by (simp add: to_float_def pyval_rat_def)

lemma comparison_chart_value:
  "create_comparison_chart =
     Inr \<lparr>bar_x = map fst comparisons, bar_y = map snd comparisons,
          bar_text = [''8.00B'', ''31.50T'', ''7500.00Q'', ''18446.74Q'', ''1000000000.00Q'']\<rparr>"
proof -
  have "map_err (\<lambda>v. format_number (PyFloat v)) (map snd comparisons) =
      Inr [''8.00B'', ''31.50T'', ''7500.00Q'', ''18446.74Q'', ''1000000000.00Q'']"
    unfolding comparisons_value format_number_PyFloat by code_simp
  then show ?thesis by (simp add: create_comparison_chart_def Let_def)
qed

lemma update_visualization_returns:
  assumes "- (2 ^ 53) < n - 1" "n \<le> 1023"
  shows "\<exists>r. update_visualization n = Inr r"
proof -
  obtain s where s: "stats_html n = Inr s" using stats_html_total [OF assms] by blast
  obtain h where h: "create_chessboard_heatmap n = Inr h" using heatmap_cells [of n] by blast
  obtain g where g: "create_exponential_growth_chart n = Inr g"
    using growth_chart_value [of n] growth_chart_nonpositive [of n] by (cases "1 \<le> n") auto
  obtain c where c: "create_cumulative_chart n = Inr c"
    using cumulative_chart_value [of n] cumulative_chart_nonpositive [of n] by (cases "1 \<le> n") auto
  show ?thesis by (simp add: update_visualization_def s h g c comparison_chart_value)
qed

lemma update_visualization_comparison:
  "update_visualization n = Inr (s, h, g, c, b) \<Longrightarrow> create_comparison_chart = Inr b"
  by (auto simp: update_visualization_def bind_err_def split: sum.splits)


text \<open>
  Claim C8. The comparison data set has exactly 5 entries, in a fixed order that ascends by
  value; the values are the doubles denoted by \<open>8e9\<close>, \<open>3.15e13\<close>, \<open>7.5e18\<close>,
  \<open>1.844674407e19\<close> and \<open>1e24\<close>. The builder takes no argument and reads no state, and the
  chart that \<open>update_visualization\<close> returns is this one for every square index.
\<close>

theorem comparison_entries:
  "create_comparison_chart =
     Inr \<lparr>bar_x = [''World Population\<newline>(8 billion)'', ''Seconds in\<newline>1 million years'',
                  ''Grains of sand\<newline>on Earth'', ''Total Rice Grains\<newline>(64 squares)'',
                  ''Stars in\<newline>observable universe''],
          bar_y = [8000000000, 31500000000000, 7500000000000000000, 18446744070000001024,
                  999999999999999983222784],
          bar_text = [''8.00B'', ''31.50T'', ''7500.00Q'', ''18446.74Q'', ''1000000000.00Q'']\<rparr> \<and>
   map snd comparisons =
     map float_literal [8 * 10 ^ 9, 315 * 10 ^ 11, 75 * 10 ^ 17, 1844674407 * 10 ^ 10, 10 ^ 24] \<and>
   length comparisons = 5 \<and>
   sorted_wrt (<) (map snd comparisons) \<and>
   (\<forall>n s h g c b. update_visualization n = Inr (s, h, g, c, b) \<longrightarrow>
      create_comparison_chart = Inr b)"
proof (intro conjI allI impI)
  show "create_comparison_chart =
     Inr \<lparr>bar_x = [''World Population\<newline>(8 billion)'', ''Seconds in\<newline>1 million years'',
                  ''Grains of sand\<newline>on Earth'', ''Total Rice Grains\<newline>(64 squares)'',
                  ''Stars in\<newline>observable universe''],
          bar_y = [8000000000, 31500000000000, 7500000000000000000, 18446744070000001024,
                  999999999999999983222784],
          bar_text = [''8.00B'', ''31.50T'', ''7500.00Q'', ''18446.74Q'', ''1000000000.00Q'']\<rparr>"
    unfolding comparison_chart_value by (simp add: comparisons_value)
next
  show "map snd comparisons =
     map float_literal [8 * 10 ^ 9, 315 * 10 ^ 11, 75 * 10 ^ 17, 1844674407 * 10 ^ 10, 10 ^ 24]"
    by code_simp
next
  show "length comparisons = 5" by (simp add: comparisons_value)
next
  show "sorted_wrt (<) (map snd comparisons)" by (simp add: comparisons_value)
next
  fix n s h g c b
  assume "update_visualization n = Inr (s, h, g, c, b)"
  then show "create_comparison_chart = Inr b" by (rule update_visualization_comparison)
qed

theorem comparison_entries_witness:
  "\<exists>s h g c b. update_visualization 7 = Inr (s, h, g, c, b) \<and> create_comparison_chart = Inr b \<and>
     bar_y b = [8000000000, 31500000000000, 7500000000000000000, 18446744070000001024,
                999999999999999983222784]"
proof -
  obtain r where "update_visualization 7 = Inr r"
    using update_visualization_returns [of 7] by auto
  then obtain s h g c b where r: "update_visualization 7 = Inr (s, h, g, c, b)"
    by (cases r) auto
  with comparison_entries have b: "create_comparison_chart = Inr b" by blast
  from comparison_entries have "create_comparison_chart =
     Inr \<lparr>bar_x = [''World Population\<newline>(8 billion)'', ''Seconds in\<newline>1 million years'',
                  ''Grains of sand\<newline>on Earth'', ''Total Rice Grains\<newline>(64 squares)'',
                  ''Stars in\<newline>observable universe''],
          bar_y = [8000000000, 31500000000000, 7500000000000000000, 18446744070000001024,
                  999999999999999983222784],
          bar_text = [''8.00B'', ''31.50T'', ''7500.00Q'', ''18446.74Q'', ''1000000000.00Q'']\<rparr>"
    by (rule conjunct1)
  from b [unfolded this] have "bar_y b = [8000000000, 31500000000000, 7500000000000000000,
      18446744070000001024, 999999999999999983222784]"
    by auto
  with r b show ?thesis by blast
qed

text \<open>
  Claim C4, as amended. A square index outside 1 to 64 is not rejected: for every \<open>n\<close> below 1
  or above 64 (from \<open>-1073\<close> to 1023), \<open>calculate_grains\<close>, \<open>calculate_total\<close> and
  \<open>update_visualization\<close> return without error. Above 64 the quantities are the exact
  integers \<open>2 ^ (n - 1)\<close> and \<open>2 ^ n - 1\<close> and both series stop at square 64; below 1 both
  series are empty.
\<close>

theorem out_of_range_not_rejected:
  "(n < 1 \<or> 64 < n) \<and> - 1073 \<le> n \<and> n \<le> 1023 \<longrightarrow>
     \<not> isl (calculate_grains n) \<and> \<not> isl (calculate_total n) \<and> \<not> isl (update_visualization n) \<and>
     (64 < n \<longrightarrow>
        calculate_grains n = Inr (PyInt (2 ^ nat (n - 1))) \<and>
        calculate_total n = Inr (PyInt (2 ^ nat n - 1)) \<and>
        (\<exists>g. create_exponential_growth_chart n = Inr g \<and> sc_x g = [1..64]) \<and>
        (\<exists>c. create_cumulative_chart n = Inr c \<and> sc_x c = [1..64])) \<and>
     (n < 1 \<longrightarrow>
        (\<exists>g. create_exponential_growth_chart n = Inr g \<and> sc_x g = []) \<and>
        (\<exists>c. create_cumulative_chart n = Inr c \<and> sc_x c = []))"
proof
  assume a: "(n < 1 \<or> 64 < n) \<and> - 1073 \<le> n \<and> n \<le> 1023"
  then have r: "- (2 ^ 53) < n - 1" "n \<le> 1023" by simp_all
  obtain g x where "calculate_grains n = Inr g" "to_float g = Inr x"
    using to_float_calculate_grains [OF r] by blast
  then have 1: "\<not> isl (calculate_grains n)" by simp
  obtain t y where "calculate_total n = Inr t" "to_float t = Inr y"
    using to_float_calculate_total [of n] r by auto
  then have 2: "\<not> isl (calculate_total n)" by simp
  obtain u where "update_visualization n = Inr u" using update_visualization_returns [OF r] by blast
  then have 3: "\<not> isl (update_visualization n)" by simp
  have 4: "calculate_grains n = Inr (PyInt (2 ^ nat (n - 1))) \<and>
        calculate_total n = Inr (PyInt (2 ^ nat n - 1)) \<and>
        (\<exists>g. create_exponential_growth_chart n = Inr g \<and> sc_x g = [1..64]) \<and>
        (\<exists>c. create_cumulative_chart n = Inr c \<and> sc_x c = [1..64])" if "64 < n"
    using that
    by (simp add: calculate_grains_nonneg calculate_total_nonneg growth_chart_value
        cumulative_chart_value)
  have 5: "(\<exists>g. create_exponential_growth_chart n = Inr g \<and> sc_x g = []) \<and>
        (\<exists>c. create_cumulative_chart n = Inr c \<and> sc_x c = [])" if "n < 1"
    using that by (simp add: growth_chart_nonpositive cumulative_chart_nonpositive)
  from 1 2 3 4 5 show "\<not> isl (calculate_grains n) \<and> \<not> isl (calculate_total n) \<and>
     \<not> isl (update_visualization n) \<and>
     (64 < n \<longrightarrow>
        calculate_grains n = Inr (PyInt (2 ^ nat (n - 1))) \<and>
        calculate_total n = Inr (PyInt (2 ^ nat n - 1)) \<and>
        (\<exists>g. create_exponential_growth_chart n = Inr g \<and> sc_x g = [1..64]) \<and>
        (\<exists>c. create_cumulative_chart n = Inr c \<and> sc_x c = [1..64])) \<and>
     (n < 1 \<longrightarrow>
        (\<exists>g. create_exponential_growth_chart n = Inr g \<and> sc_x g = []) \<and>
        (\<exists>c. create_cumulative_chart n = Inr c \<and> sc_x c = []))"
    by blast
qed

theorem out_of_range_not_rejected_witness:
  "((65::int) < 1 \<or> (64::int) < 65) \<and> (- 1073::int) \<le> 65 \<and> (65::int) \<le> 1023 \<and>
   \<not> isl (update_visualization 65) \<and>
   calculate_grains 65 = Inr (PyInt 18446744073709551616) \<and>
   (\<exists>g. create_exponential_growth_chart 65 = Inr g \<and> sc_x g = [1..64]) \<and>
   ((0::int) < 1 \<or> (64::int) < 0) \<and> (- 1073::int) \<le> 0 \<and> (0::int) \<le> 1023 \<and>
   \<not> isl (calculate_grains 0) \<and> \<not> isl (update_visualization 0) \<and>
   (\<exists>g. create_exponential_growth_chart 0 = Inr g \<and> sc_x g = [])"
  using out_of_range_not_rejected [of 65] out_of_range_not_rejected [of 0] by simp

theorem out_of_range_accepted_counterexample:
  "calculate_grains 65 = Inr (PyInt 18446744073709551616) \<and> \<not> isl (update_visualization 65) \<and>
   calculate_grains 0 = Inr (PyFloat (1 / 2)) \<and> \<not> isl (update_visualization 0)"
proof -
  obtain u where "update_visualization 65 = Inr u" using update_visualization_returns [of 65] by auto
  then have 1: "\<not> isl (update_visualization 65)" by simp
  obtain w where "update_visualization 0 = Inr w" using update_visualization_returns [of 0] by auto
  then have 2: "\<not> isl (update_visualization 0)" by simp
  have 3: "calculate_grains 65 = Inr (PyInt 18446744073709551616)"
    by (simp add: calculate_grains_nonneg)
  have 4: "calculate_grains 0 = Inr (PyFloat (1 / 2))"
    using calculate_grains_neg_exact [of 0] by simp
  from 1 2 3 4 show ?thesis by simp
qed


end
